theory Spec2Isabelle
  imports Complex_Main "HOL-Library.Product_Lexorder"
begin

section \<open>Conventions of the embedding\<close>

text \<open>
  The development embeds the PSD extraction code of the repository:
  \<^item> \<^verbatim>\<open>Scripts/Pch_TO_CSV2.py\<close>: \<^verbatim>\<open>determine_translation_id\<close>, \<^verbatim>\<open>process_data_blocks\<close>,
    \<^verbatim>\<open>extract_frequency\<close>, \<^verbatim>\<open>find_top_three_local_maxima\<close>, \<^verbatim>\<open>create_combined_data\<close>,
    \<^verbatim>\<open>create_delta_files\<close>;
  \<^item> \<^verbatim>\<open>heeds/database/Pch_TO_Database.py\<close>: \<^verbatim>\<open>parse_pch_file\<close>, \<^verbatim>\<open>nastran_float\<close>,
    \<^verbatim>\<open>find_peaks\<close>, \<^verbatim>\<open>calculate_area\<close>;
  \<^item> \<^verbatim>\<open>Scripts/compute_delta.py\<close> (under the runner's work tree): \<^verbatim>\<open>compute_delta\<close>.

  Python strings are \<^typ>\<open>string\<close> (ASCII). A float read from the input file is a
  \<open>pyfloat\<close>: a finite value, which is the real number that the literal denotes, one of the two
  infinities, or NaN. Arithmetic on finite values is exact: rounding and overflow are not part
  of the model. The cells of the tables that the delta calculator reads from CSV files are of
  type \<^typ>\<open>real option\<close>, where \<^term>\<open>None\<close> is NaN (an empty field). A raised exception is a
  value: \<^term>\<open>None\<close> for the \<^verbatim>\<open>ValueError\<close> of \<^verbatim>\<open>int()\<close> and \<^verbatim>\<open>float()\<close>, and \<^verbatim>\<open>Inl\<close> of an error
  for the functions that let it escape.
\<close>

section \<open>Python string primitives\<close>

definition isspace :: "char \<Rightarrow> bool" where
  "isspace c \<longleftrightarrow> c \<in> set [CHR 0x09, CHR 0x0A, CHR 0x0B, CHR 0x0C, CHR 0x0D,
                         CHR 0x1C, CHR 0x1D, CHR 0x1E, CHR 0x1F, CHR '' '']"

definition isdigit :: "char \<Rightarrow> bool" where
  "isdigit c \<longleftrightarrow> c \<in> set ''0123456789''"

definition is_sign :: "char \<Rightarrow> bool" where
  "is_sign c \<longleftrightarrow> c = CHR ''+'' \<or> c = CHR ''-''"

definition is_exp :: "char \<Rightarrow> bool" where
  "is_exp c \<longleftrightarrow> c = CHR ''E'' \<or> c = CHR ''e''"

text \<open>\<^verbatim>\<open>s.strip()\<close>: leading and trailing whitespace removed.\<close>

definition strip :: "string \<Rightarrow> string" where
  "strip s = rev (dropWhile isspace (rev (dropWhile isspace s)))"

text \<open>\<^verbatim>\<open>s.split()\<close>: the maximal runs of non-whitespace characters, in order. The first
  argument holds the characters of the token being read, last one first.\<close>

fun split_acc :: "string \<Rightarrow> string \<Rightarrow> string list" where
  "split_acc cur [] = (if cur = [] then [] else [rev cur])"
| "split_acc cur (c # cs) =
     (if isspace c then (if cur = [] then split_acc [] cs else rev cur # split_acc [] cs)
      else split_acc (c # cur) cs)"

definition str_split :: "string \<Rightarrow> string list" where
  "str_split s = split_acc [] s"

text \<open>\<^verbatim>\<open>s.startswith(p)\<close>.\<close>

definition startswith :: "string \<Rightarrow> string \<Rightarrow> bool" where
  "startswith s p \<longleftrightarrow> take (length p) s = p"

text \<open>The decimal digit strings of Python's numeric literals: digits, with single
  underscores allowed between two digits.\<close>

fun digitpart :: "string \<Rightarrow> bool" where
  "digitpart [] = False"
| "digitpart [c] = isdigit c"
| "digitpart (c # d # r) =
     (isdigit c \<and> (if d = CHR ''_'' then digitpart r else digitpart (d # r)))"

definition digit_val :: "char \<Rightarrow> nat" where
  "digit_val c = of_char c - 48"

definition digits_val :: "string \<Rightarrow> nat" where
  "digits_val s = foldl (\<lambda>n c. 10 * n + digit_val c) 0 (filter isdigit s)"

text \<open>\<^verbatim>\<open>int(s)\<close> in base 10: surrounding whitespace, an optional sign, a digit string.
  \<^term>\<open>None\<close> is \<^verbatim>\<open>ValueError\<close>.\<close>

definition py_int :: "string \<Rightarrow> int option" where
  "py_int s =
     (let t = strip s;
          u = (if t \<noteq> [] \<and> is_sign (hd t) then tl t else t)
      in if digitpart u
         then Some ((if t \<noteq> [] \<and> hd t = CHR ''-'' then - 1 else 1) * int (digits_val u))
         else None)"

text \<open>The values of Python floats.\<close>

datatype pyfloat = Finite real | PosInf | NegInf | NaN

text \<open>\<^verbatim>\<open>s.lower()\<close> on ASCII strings.\<close>

definition lower_char :: "char \<Rightarrow> char" where
  "lower_char c =
     (case map_of (zip ''ABCDEFGHIJKLMNOPQRSTUVWXYZ'' ''abcdefghijklmnopqrstuvwxyz'') c of
        None \<Rightarrow> c
      | Some l \<Rightarrow> l)"

definition lower :: "string \<Rightarrow> string" where
  "lower s = map lower_char s"

text \<open>\<^verbatim>\<open>float(s)\<close>: surrounding whitespace, an optional sign, and then either one of the words
  \<^verbatim>\<open>inf\<close>, \<^verbatim>\<open>infinity\<close>, \<^verbatim>\<open>nan\<close> in any case, or a decimal literal: a mantissa (digits,
  optionally a point and more digits; at least one digit), and optionally an exponent
  (\<^verbatim>\<open>e\<close> or \<^verbatim>\<open>E\<close>, an optional sign, digits), whose value is the exact decimal value.
  \<^term>\<open>None\<close> is \<^verbatim>\<open>ValueError\<close>.\<close>

definition mantissa_ok :: "string \<Rightarrow> bool" where
  "mantissa_ok m =
     (let ip = takeWhile (\<lambda>c. c \<noteq> CHR ''.'') m;
          pt = dropWhile (\<lambda>c. c \<noteq> CHR ''.'') m
      in if pt = [] then digitpart ip
         else (ip = [] \<or> digitpart ip) \<and> (tl pt = [] \<or> digitpart (tl pt))
              \<and> \<not> (ip = [] \<and> tl pt = []))"

definition mantissa_val :: "string \<Rightarrow> real" where
  "mantissa_val m =
     (let ip = takeWhile (\<lambda>c. c \<noteq> CHR ''.'') m;
          fp = filter isdigit (dropWhile (\<lambda>c. c \<noteq> CHR ''.'') m)
      in real (digits_val ip) + real (digits_val fp) / 10 ^ length fp)"

definition exponent_ok :: "string \<Rightarrow> bool" where
  "exponent_ok x =
     (case x of [] \<Rightarrow> True
      | e # y \<Rightarrow> is_exp e \<and> digitpart (if y \<noteq> [] \<and> is_sign (hd y) then tl y else y))"

definition exponent_val :: "string \<Rightarrow> real" where
  "exponent_val x =
     (case x of [] \<Rightarrow> 1
      | e # y \<Rightarrow> if y \<noteq> [] \<and> hd y = CHR ''-'' then 1 / 10 ^ digits_val y
                 else 10 ^ digits_val y)"

definition py_float :: "string \<Rightarrow> pyfloat option" where
  "py_float s =
     (let t = strip s;
          u = (if t \<noteq> [] \<and> is_sign (hd t) then tl t else t);
          m = takeWhile (\<lambda>c. \<not> is_exp c) u;
          x = dropWhile (\<lambda>c. \<not> is_exp c) u
      in if lower u = ''inf'' \<or> lower u = ''infinity''
         then Some (if t \<noteq> [] \<and> hd t = CHR ''-'' then NegInf else PosInf)
         else if lower u = ''nan'' then Some NaN
         else if mantissa_ok m \<and> exponent_ok x
         then Some (Finite ((if t \<noteq> [] \<and> hd t = CHR ''-'' then - 1 else 1)
                            * mantissa_val m * exponent_val x))
         else None)"

section \<open>The numeric literal parser: \<^verbatim>\<open>nastran_float\<close>\<close>









section \<open>The baseline delta calculator\<close>

text \<open>The exceptions that escape the modelled functions.\<close>

datatype error = KeyError string | ValueError string | NoData

text \<open>
  A table as \<^verbatim>\<open>pd.read_csv\<close> returns it: the \<^verbatim>\<open>Measurement\<close> column and the other columns in
  file order, each a list of cells on the index \<open>0, 1, \<dots>\<close>. A cell is a number or NaN (an empty
  field of the file).
\<close>

type_synonym cell = "real option"

record table =
  measurement :: "string list"
  node_cols :: "(string \<times> cell list) list"

text \<open>The value of a series at an index label; a label the series does not have is missing.\<close>

definition series_get :: "cell list \<Rightarrow> nat \<Rightarrow> cell" where
  "series_get s i = (if i < length s then s ! i else None)"

text \<open>
  \<^verbatim>\<open>a.subtract(b, fill_value=0)\<close> of pandas: the result is indexed by the union of the two
  indexes; a value missing on one side only is replaced by 0, and where both are missing the
  result is missing.
\<close>

definition fill0 :: "cell \<Rightarrow> real" where
  "fill0 x = (case x of None \<Rightarrow> 0 | Some v \<Rightarrow> v)"

definition series_subtract_fill0 :: "cell list \<Rightarrow> cell list \<Rightarrow> cell list" where
  "series_subtract_fill0 a b =
     map (\<lambda>i. if series_get a i = None \<and> series_get b i = None then None
              else Some (fill0 (series_get a i) - fill0 (series_get b i)))
         [0..<max (length a) (length b)]"

text \<open>\<^verbatim>\<open>a - b\<close> of pandas: missing where either side is missing.\<close>

definition series_sub :: "cell list \<Rightarrow> cell list \<Rightarrow> cell list" where
  "series_sub a b =
     map (\<lambda>i. case series_get a i of None \<Rightarrow> None
              | Some x \<Rightarrow> (case series_get b i of None \<Rightarrow> None | Some y \<Rightarrow> Some (x - y)))
         [0..<max (length a) (length b)]"

text \<open>\<^verbatim>\<open>lambda x: 0 if abs(x) < 1e-6 else x\<close>; every comparison with NaN is false.\<close>

definition deadband :: "cell \<Rightarrow> cell" where
  "deadband x = (case x of None \<Rightarrow> None
                 | Some v \<Rightarrow> if \<bar>v\<bar> < 1 / 10 ^ 6 then Some 0 else Some v)"

text \<open>\<^verbatim>\<open>df[col] = series\<close> on a frame of \<open>n\<close> rows: the series is aligned on the frame's index.\<close>

definition assign_column :: "nat \<Rightarrow> cell list \<Rightarrow> cell list" where
  "assign_column n s = map (series_get s) [0..<n]"

text \<open>
  \<^verbatim>\<open>create_delta_files\<close>, for one pair of files (the code treats the acceleration pair and the
  displacement pair alike): the delta frame is a copy of the current one in which every column
  that the baseline has too is replaced. The result is the frame written to the delta file.
\<close>

definition create_delta_files :: "table \<Rightarrow> table \<Rightarrow> table" where
  "create_delta_files current baseline =
     current\<lparr>node_cols :=
       map (\<lambda>(col, c). case map_of (node_cols baseline) col of
                          Some b \<Rightarrow> (col, map deadband (assign_column (length (measurement current))
                                                  (series_subtract_fill0 b c)))
                        | None \<Rightarrow> (col, c))
           (node_cols current)\<rparr>"

text \<open>
  \<^verbatim>\<open>compute_delta\<close>: the delta frame is a copy of the baseline; \<^verbatim>\<open>baseline[col]\<close> raises
  \<^verbatim>\<open>KeyError\<close> for a column of the current frame that the baseline lacks.
\<close>

definition set_column :: "table \<Rightarrow> string \<Rightarrow> cell list \<Rightarrow> table" where
  "set_column t col s =
     t\<lparr>node_cols :=
        (if col \<in> fst ` set (node_cols t)
         then map (\<lambda>(k, v). if k = col then (k, s) else (k, v)) (node_cols t)
         else node_cols t @ [(col, s)])\<rparr>"

fun compute_delta_loop :: "(string \<times> cell list) list \<Rightarrow> table \<Rightarrow> table \<Rightarrow> error + table" where
  "compute_delta_loop [] baseline delta = Inr delta"
| "compute_delta_loop ((col, c) # rest) baseline delta =
     (case map_of (node_cols baseline) col of
        None \<Rightarrow> Inl (KeyError col)
      | Some b \<Rightarrow> compute_delta_loop rest baseline
                   (set_column delta col
                      (map deadband (assign_column (length (measurement delta)) (series_sub b c)))))"

definition compute_delta :: "table \<Rightarrow> table \<Rightarrow> error + table" where
  "compute_delta current baseline = compute_delta_loop (node_cols current) baseline baseline"

text \<open>The cell of a frame at a column and a row, when the frame has both.\<close>

definition table_cell :: "table \<Rightarrow> string \<Rightarrow> nat \<Rightarrow> cell option" where
  "table_cell t col i =
     (case map_of (node_cols t) col of None \<Rightarrow> None
      | Some c \<Rightarrow> if i < length (measurement t) \<and> i < length c then Some (c ! i) else None)"

text \<open>Two small tables on which the delta calculator is run.\<close>

definition delta_example_current :: table where
  "delta_example_current =
     \<lparr>measurement = [''ACCE_T1_Area'', ''ACCE_T1_Frequency_1'', ''ACCE_T1_PSD_1'', ''ACCE_T1_Frequency_2''],
      node_cols = [(''Node_1'', [Some 1, Some 2, Some 3, None]),
                   (''Node_2'', [None, Some 3.5, None, Some 0.0000002])]\<rparr>"

definition delta_example_baseline :: table where
  "delta_example_baseline =
     \<lparr>measurement = [''ACCE_T1_Area'', ''ACCE_T1_Frequency_1'', ''ACCE_T1_PSD_1'', ''ACCE_T1_Frequency_2''],
      node_cols = [(''Node_1'', [Some 1.0000005, Some 2.00001, Some 3, Some 4]),
                   (''Node_2'', [None, None, Some 0.0000003, None])]\<rparr>"

text \<open>A current table with a column \<^verbatim>\<open>Node_3\<close> that the baseline table does not have.\<close>

definition delta_example_wide :: table where
  "delta_example_wide =
     \<lparr>measurement = [''ACCE_T1_Area'', ''ACCE_T1_Frequency_1'', ''ACCE_T1_PSD_1'', ''ACCE_T1_Frequency_2''],
      node_cols = [(''Node_1'', [Some 1, Some 2, Some 3, Some 4]),
                   (''Node_3'', [Some 7, Some 8, Some 9, Some 10])]\<rparr>"

definition delta_example_narrow :: table where
  "delta_example_narrow =
     \<lparr>measurement = [''ACCE_T1_Area'', ''ACCE_T1_Frequency_1'', ''ACCE_T1_PSD_1'', ''ACCE_T1_Frequency_2''],
      node_cols = [(''Node_1'', [Some 3, Some 2, Some 3, Some 5])]\<rparr>"

section \<open>The channel block parsers and the frequency axis\<close>

text \<open>\<^verbatim>\<open>str(n)\<close> for an integer, as the f-strings format it.\<close>

fun str_nat :: "nat \<Rightarrow> string" where
  "str_nat n = (if n < 10 then [char_of (48 + n)]
                else str_nat (n div 10) @ [char_of (48 + n mod 10)])"

declare str_nat.simps [simp del]

definition str_int :: "int \<Rightarrow> string" where
  "str_int i = (if i < 0 then CHR ''-'' # str_nat (nat (- i)) else str_nat (nat i))"

text \<open>A Python \<^verbatim>\<open>dict\<close> with its insertion order: \<^verbatim>\<open>d[k] = v\<close> replaces the value of a key
  that is present and adds a new key at the end.\<close>

fun dict_set :: "('k \<times> 'v) list \<Rightarrow> 'k \<Rightarrow> 'v \<Rightarrow> ('k \<times> 'v) list" where
  "dict_set [] k v = [(k, v)]"
| "dict_set (p # ps) k v = (if fst p = k then (k, v) # ps else p # dict_set ps k v)"

definition dict_get :: "('k \<times> 'v list) list \<Rightarrow> 'k \<Rightarrow> 'v list" where
  "dict_get d k = (case map_of d k of None \<Rightarrow> [] | Some xs \<Rightarrow> xs)"

text \<open>
  The comparisons of floats. \<^verbatim>\<open>x == y\<close> and \<^verbatim>\<open>x < y\<close> are false as soon as one side is NaN;
  otherwise the order is \<open>-inf\<close>, the finite values, \<open>+inf\<close>. The key gives NaN the last place,
  where the sorts of numpy put it.
\<close>

fun float_key :: "pyfloat \<Rightarrow> int \<times> real" where
  "float_key NegInf = (- 1, 0)"
| "float_key (Finite r) = (0, r)"
| "float_key PosInf = (1, 0)"
| "float_key NaN = (2, 0)"

definition float_eq :: "pyfloat \<Rightarrow> pyfloat \<Rightarrow> bool" where
  "float_eq a b \<longleftrightarrow> a \<noteq> NaN \<and> a = b"

definition float_lt :: "pyfloat \<Rightarrow> pyfloat \<Rightarrow> bool" where
  "float_lt a b \<longleftrightarrow> a \<noteq> NaN \<and> b \<noteq> NaN \<and> float_key a < float_key b"

text \<open>\<^verbatim>\<open>x in xs\<close> for a float \<open>x\<close> that \<^verbatim>\<open>float()\<close> has just returned (a new object, so that
  only \<^verbatim>\<open>==\<close> can find it in the list).\<close>

definition py_in :: "pyfloat \<Rightarrow> pyfloat list \<Rightarrow> bool" where
  "py_in x xs \<longleftrightarrow> (\<exists>y \<in> set xs. float_eq x y)"

text \<open>
  \<^verbatim>\<open>sorted(xs, key=key)\<close>. Python's sort compares the keys with \<^verbatim>\<open><\<close> alone. When no key is
  NaN the order is total and the sort is the stable ascending sort. With NaN among the keys the
  result is still a permutation of the list, but which one depends on the merge strategy of
  the interpreter's sort. The sort is therefore a parameter \<open>srt\<close> of the functions that call
  it: \<open>srt keys\<close> lists the positions of the list in the order of the result, and \<open>srt\<close> is
  assumed to satisfy \<open>valid_sorter\<close>. \<open>stable_sorter\<close> is one such function.
  \<^verbatim>\<open>sorted(xs, key=key, reverse=True)\<close> reverses the list, sorts it and reverses the result.
\<close>

type_synonym sorter = "pyfloat list \<Rightarrow> nat list"

definition stable_sorter :: sorter where
  "stable_sorter keys = sort_key (\<lambda>i. float_key (keys ! i)) [0..<length keys]"

definition valid_sorter :: "sorter \<Rightarrow> bool" where
  "valid_sorter srt \<longleftrightarrow>
     (\<forall>keys. length (srt keys) = length keys \<and> set (srt keys) = {0..<length keys}
            \<and> (NaN \<notin> set keys \<longrightarrow> srt keys = stable_sorter keys))"

definition py_sorted :: "sorter \<Rightarrow> ('a \<Rightarrow> pyfloat) \<Rightarrow> 'a list \<Rightarrow> 'a list" where
  "py_sorted srt key xs = map (\<lambda>i. xs ! i) (srt (map key xs))"

definition py_sorted_reverse :: "sorter \<Rightarrow> ('a \<Rightarrow> pyfloat) \<Rightarrow> 'a list \<Rightarrow> 'a list" where
  "py_sorted_reverse srt key xs = rev (py_sorted srt key (rev xs))"

text \<open>\<^verbatim>\<open>determine_translation_id\<close>.\<close>

definition determine_translation_id :: "int \<Rightarrow> string" where
  "determine_translation_id translation_id =
     (if translation_id = 3 then ''T1''
      else if translation_id = 4 then ''T2''
      else if translation_id = 5 then ''T3''
      else if translation_id = 6 then ''R1''
      else if translation_id = 7 then ''R2''
      else if translation_id = 8 then ''R3''
      else ''UNKNOWN-'' @ str_int translation_id)"

text \<open>
  The state of \<^verbatim>\<open>process_data_blocks\<close>: the global \<^verbatim>\<open>data_dict\<close> (channel key to the list of
  values read so far), the global \<^verbatim>\<open>node_ids\<close> and the local \<^verbatim>\<open>current_header\<close>. The counters
  \<^verbatim>\<open>acce_count\<close>, \<^verbatim>\<open>disp_count\<close>, \<^verbatim>\<open>total_psd_columns\<close> and the locals \<^verbatim>\<open>current_node\<close>,
  \<^verbatim>\<open>current_dof\<close> are written and never read by the computation (the counters are printed),
  and are left out.
\<close>

record pstate =
  data_dict :: "(string \<times> pyfloat list) list"
  node_ids :: "string list"
  current_header :: "string option"

text \<open>The branches for \<^verbatim>\<open>$ACCE\<close> and \<^verbatim>\<open>$DISP\<close> lines, which differ in the prefix of the key.
  \<^verbatim>\<open>int(parts[3])\<close> may raise \<^verbatim>\<open>ValueError\<close>, which leaves the function.\<close>

definition header_line :: "string \<Rightarrow> string \<Rightarrow> pstate \<Rightarrow> error + pstate" where
  "header_line prefix line st =
     (let parts = str_split line in
      if 5 \<le> length parts then
        (let node_id = parts ! 2 in
         case py_int (parts ! 3) of
           None \<Rightarrow> Inl (ValueError (parts ! 3))
         | Some translation_id \<Rightarrow>
             (let header = prefix @ ''-'' @ node_id @ ''-'' @ determine_translation_id translation_id
              in Inr (st\<lparr>data_dict := (if header \<in> fst ` set (data_dict st) then data_dict st
                                       else dict_set (data_dict st) header []),
                         node_ids := List.insert node_id (node_ids st),
                         current_header := Some header\<rparr>)))
      else Inr st)"

text \<open>One iteration of the loop of \<^verbatim>\<open>process_data_blocks\<close>. \<^verbatim>\<open>data_dict[current_header]\<close>
  raises \<^verbatim>\<open>KeyError\<close> for a key that is absent, which the \<^verbatim>\<open>except\<close> clause does not catch.\<close>

definition process_line :: "pstate \<Rightarrow> string \<Rightarrow> error + pstate" where
  "process_line st line =
     (if startswith line ''$ACCE'' then header_line ''ACCE'' line st
      else if startswith line ''$DISP'' then header_line ''DISP'' line st
      else if strip line \<noteq> [] \<and> current_header st \<noteq> None then
        (let psd_parts = str_split line in
         if 4 \<le> length psd_parts then
           (case py_float (psd_parts ! 2) of
              None \<Rightarrow> Inr st
            | Some psd \<Rightarrow>
                (case map_of (data_dict st) (the (current_header st)) of
                   None \<Rightarrow> Inl (KeyError (the (current_header st)))
                 | Some values \<Rightarrow>
                     Inr (st\<lparr>data_dict := dict_set (data_dict st) (the (current_header st))
                                              (values @ [psd])\<rparr>)))
         else Inr st)
      else if strip line = [] then Inr (st\<lparr>current_header := None\<rparr>)
      else Inr st)"

fun process_data_blocks :: "string list \<Rightarrow> pstate \<Rightarrow> error + pstate" where
  "process_data_blocks [] st = Inr st"
| "process_data_blocks (line # lines) st =
     (case process_line st line of Inl e \<Rightarrow> Inl e | Inr st' \<Rightarrow> process_data_blocks lines st')"

text \<open>
  \<^verbatim>\<open>extract_frequency\<close>: the second pass over the lines, with its own flag \<^verbatim>\<open>within_data_block\<close>.
  The frequencies are collected under the key \<^verbatim>\<open>Frequency\<close> of \<^verbatim>\<open>data_dict\<close>.
\<close>

definition extract_line :: "bool \<times> (string \<times> pyfloat list) list \<Rightarrow> string
    \<Rightarrow> bool \<times> (string \<times> pyfloat list) list" where
  "extract_line wd line =
     (let within_data_block = fst wd; d = snd wd in
      if startswith line ''$ACCE'' \<or> startswith line ''$DISP'' then (True, d)
      else if within_data_block then
        (if strip line = [] then (False, d)
         else (let frequency_parts = str_split line in
               if 4 \<le> length frequency_parts then
                 (case py_float (frequency_parts ! 1) of
                    None \<Rightarrow> (True, d)
                  | Some frequency \<Rightarrow>
                      if \<not> py_in frequency (dict_get d ''Frequency'')
                      then (True, dict_set d ''Frequency'' (dict_get d ''Frequency'' @ [frequency]))
                      else (True, d))
               else (True, d)))
      else (False, d))"

definition extract_frequency :: "string list \<Rightarrow> (string \<times> pyfloat list) list \<Rightarrow> (string \<times> pyfloat list) list" where
  "extract_frequency lines d =
     snd (foldl extract_line
            (False, if ''Frequency'' \<in> fst ` set d then d else dict_set d ''Frequency'' []) lines)"

definition initial_pstate :: pstate where
  "initial_pstate = \<lparr>data_dict = [], node_ids = [], current_header = None\<rparr>"

text \<open>The frequency axis of \<^verbatim>\<open>create_combined_data\<close>: the collected frequencies, passed
  through \<^verbatim>\<open>sorted\<close>.\<close>

definition frequency_axis :: "sorter \<Rightarrow> string list \<Rightarrow> (string \<times> pyfloat list) list
    \<Rightarrow> pyfloat list" where
  "frequency_axis srt lines d =
     py_sorted srt (\<lambda>x. x) (dict_get (extract_frequency lines d) ''Frequency'')"

text \<open>
  \<^verbatim>\<open>parse_pch_file\<close> of the database importer. The two result dictionaries are keyed by
  (node id, DOF name) and hold (frequency, value) pairs. \<^verbatim>\<open>current_data\<close> is stored under
  its key only when the four variables are truthy: a type is set, the node id is not 0, the
  DOF name is not empty and the list is not empty.
\<close>

datatype kind = Acceleration | Displacement

record dbstate =
  acceleration :: "((int \<times> string) \<times> (pyfloat \<times> pyfloat) list) list"
  displacement :: "((int \<times> string) \<times> (pyfloat \<times> pyfloat) list) list"
  current_type :: "kind option"
  current_node :: "int option"
  current_dof :: "string option"
  current_data :: "(pyfloat \<times> pyfloat) list"

definition save_block :: "dbstate \<Rightarrow> dbstate" where
  "save_block st =
     (case (current_type st, current_node st, current_dof st) of
        (Some ty, Some node, Some dof) \<Rightarrow>
          if node \<noteq> 0 \<and> dof \<noteq> [] \<and> current_data st \<noteq> [] then
            (case ty of
               Acceleration \<Rightarrow> st\<lparr>acceleration := dict_set (acceleration st) (node, dof) (current_data st)\<rparr>
             | Displacement \<Rightarrow> st\<lparr>displacement := dict_set (displacement st) (node, dof) (current_data st)\<rparr>)
          else st
      | _ \<Rightarrow> st)"

definition dof_mapping :: "int \<Rightarrow> string" where
  "dof_mapping dof_num =
     (if dof_num = 3 then ''T1''
      else if dof_num = 4 then ''T2''
      else if dof_num = 5 then ''T3''
      else if dof_num = 6 then ''R1''
      else if dof_num = 7 then ''R2''
      else if dof_num = 8 then ''R3''
      else ''DOF'' @ str_int dof_num)"

text \<open>The branches for \<^verbatim>\<open>$ACCE\<close> and \<^verbatim>\<open>$DISP\<close> lines, which differ in the type they set. Both
  calls of \<^verbatim>\<open>int\<close> may raise \<^verbatim>\<open>ValueError\<close>, which leaves the function.\<close>

definition pch_header :: "kind \<Rightarrow> string \<Rightarrow> dbstate \<Rightarrow> error + dbstate" where
  "pch_header ty line st0 =
     (let st = save_block st0; parts = str_split line in
      if 5 \<le> length parts then
        (case py_int (parts ! 2) of
           None \<Rightarrow> Inl (ValueError (parts ! 2))
         | Some node \<Rightarrow>
             (case py_int (parts ! 3) of
                None \<Rightarrow> Inl (ValueError (parts ! 3))
              | Some dof_num \<Rightarrow>
                  Inr (st\<lparr>current_type := Some ty, current_node := Some node,
                          current_dof := Some (dof_mapping dof_num), current_data := []\<rparr>)))
      else Inr st)"

definition pch_line :: "dbstate \<Rightarrow> string \<Rightarrow> error + dbstate" where
  "pch_line st line =
     (if startswith line ''$ACCE'' then pch_header Acceleration line st
      else if startswith line ''$DISP'' then pch_header Displacement line st
      else if startswith line ''$'' then
        Inr ((save_block st)\<lparr>current_type := None, current_node := None,
                              current_dof := None, current_data := []\<rparr>)
      else if current_type st \<noteq> None \<and> strip line \<noteq> [] then
        (let parts = str_split line in
         if 3 \<le> length parts then
           (case (py_float (parts ! 1), py_float (parts ! 2)) of
              (Some frequency, Some psd_value) \<Rightarrow>
                Inr (st\<lparr>current_data := current_data st @ [(frequency, psd_value)]\<rparr>)
            | _ \<Rightarrow> Inr st)
         else Inr st)
      else Inr st)"

fun pch_lines :: "string list \<Rightarrow> dbstate \<Rightarrow> error + dbstate" where
  "pch_lines [] st = Inr st"
| "pch_lines (line # lines) st =
     (case pch_line st line of Inl e \<Rightarrow> Inl e | Inr st' \<Rightarrow> pch_lines lines st')"

definition initial_dbstate :: dbstate where
  "initial_dbstate = \<lparr>acceleration = [], displacement = [], current_type = None,
                       current_node = None, current_dof = None, current_data = []\<rparr>"

definition parse_pch_file :: "string list \<Rightarrow> error + dbstate" where
  "parse_pch_file lines =
     (case pch_lines lines initial_dbstate of Inl e \<Rightarrow> Inl e | Inr st \<Rightarrow> Inr (save_block st))"

text \<open>The value that a line contributes as a data row of \<^verbatim>\<open>process_data_blocks\<close>, and the
  pair that it contributes as a data row of \<^verbatim>\<open>parse_pch_file\<close>, if any.\<close>

definition row_value :: "string \<Rightarrow> pyfloat option" where
  "row_value line =
     (if 4 \<le> length (str_split line) then py_float (str_split line ! 2) else None)"

definition pch_row :: "string \<Rightarrow> (pyfloat \<times> pyfloat) option" where
  "pch_row line =
     (if 3 \<le> length (str_split line) then
        (case (py_float (str_split line ! 1), py_float (str_split line ! 2)) of
           (Some frequency, Some psd_value) \<Rightarrow> Some (frequency, psd_value)
         | _ \<Rightarrow> None)
      else None)"

definition data_of :: "kind \<Rightarrow> dbstate \<Rightarrow> ((int \<times> string) \<times> (pyfloat \<times> pyfloat) list) list" where
  "data_of ty st = (case ty of Acceleration \<Rightarrow> acceleration st | Displacement \<Rightarrow> displacement st)"

text \<open>
  The frequencies of the data rows, in file order: the rows with at least four tokens between a
  channel header and the next blank line whose second token is a numeric literal. The flag
  tells whether a block is open.
\<close>

fun frequency_rows :: "bool \<Rightarrow> string list \<Rightarrow> pyfloat list" where
  "frequency_rows inblock [] = []"
| "frequency_rows inblock (line # lines) =
     (if startswith line ''$ACCE'' \<or> startswith line ''$DISP'' then frequency_rows True lines
      else if inblock \<and> strip line = [] then frequency_rows False lines
      else if inblock \<and> 4 \<le> length (str_split line) then
        (case py_float (str_split line ! 1) of
           Some f \<Rightarrow> f # frequency_rows inblock lines
         | None \<Rightarrow> frequency_rows inblock lines)
      else frequency_rows inblock lines)"

text \<open>The states of the two parsers after the header \<^verbatim>\<open>$ACCE 0 222 3 0\<close> and the row
  \<^verbatim>\<open>1 1.0 0.5 1\<close>.\<close>

definition example_pstate :: pstate where
  "example_pstate = \<lparr>data_dict = [(''ACCE-222-T1'', [Finite 0.5])], node_ids = [''222''],
                      current_header = Some ''ACCE-222-T1''\<rparr>"

definition example_dbstate :: dbstate where
  "example_dbstate = \<lparr>acceleration = [], displacement = [], current_type = Some Acceleration,
                       current_node = Some 222, current_dof = Some ''T1'',
                       current_data = [(Finite 1, Finite 0.5)]\<rparr>"

text \<open>\<^verbatim>\<open>if frequency not in data_dict['Frequency']: data_dict['Frequency'].append(frequency)\<close>.\<close>

definition add_new :: "pyfloat list \<Rightarrow> pyfloat \<Rightarrow> pyfloat list" where
  "add_new fs f = (if py_in f fs then fs else fs @ [f])"

text \<open>Two channels that report the frequencies 1, 2, 2, 3 and 2, 3, 4.\<close>

definition axis_example_lines :: "string list" where
  "axis_example_lines =
     [''$ACCE 0 1 3 0'', ''1 1.0 9.0 0'', ''2 2.0 9.0 0'', ''3 2.0 9.0 0'', ''4 3.0 9.0 0'', '''',
      ''$DISP 0 1 3 0'', ''1 2.0 7.0 0'', ''2 3.0 7.0 0'', ''3 4.0 7.0 0'']"

text \<open>One channel whose two data rows have \<^verbatim>\<open>nan\<close> in the frequency field.\<close>

definition axis_nan_lines :: "string list" where
  "axis_nan_lines = [''$ACCE 0 1 3 0'', ''1 nan 9.0 0'', ''2 nan 9.0 0'']"

definition channel_keys :: "pstate \<Rightarrow> bool" where
  "channel_keys st \<longleftrightarrow> (\<forall>k \<in> fst ` set (data_dict st). startswith k ''ACCE-'' \<or> startswith k ''DISP-'')"

section \<open>Properties of the numeric literal parser\<close>


























lemma is_exp_E [simp]: "is_exp (CHR ''E'')"
  by (simp add: is_exp_def)









































lemmas string_eval = strip_def isspace_def isdigit_def is_sign_def is_exp_def str_split_def
  startswith_def digit_val_def digits_val_def py_int_def mantissa_ok_def mantissa_val_def
  exponent_ok_def exponent_val_def py_float_def lower_def lower_char_def




section \<open>Properties of the baseline delta calculator\<close>

lemma map_of_map_value:
  "map_of (map (\<lambda>(k, v). (k, f k v)) xs) k = map_option (f k) (map_of xs k)"
  by (induction xs) auto

lemma create_delta_files_cols:
  "node_cols (create_delta_files current baseline) =
     map (\<lambda>(col, c). (col, case map_of (node_cols baseline) col of
                              Some b \<Rightarrow> map deadband (assign_column (length (measurement current))
                                                  (series_subtract_fill0 b c))
                            | None \<Rightarrow> c)) (node_cols current)"
  unfolding create_delta_files_def by (auto split: option.splits)

lemma create_delta_files_lookup:
  assumes "map_of (node_cols current) col = Some c" "map_of (node_cols baseline) col = Some b"
  shows "map_of (node_cols (create_delta_files current baseline)) col =
           Some (map deadband (assign_column (length (measurement current)) (series_subtract_fill0 b c)))"
  unfolding create_delta_files_cols map_of_map_value using assms by simp

lemma create_delta_files_measurement:
  "measurement (create_delta_files current baseline) = measurement current"
  by (simp add: create_delta_files_def)

lemma assign_column_nth: "i < n \<Longrightarrow> assign_column n s ! i = series_get s i"
  by (simp add: assign_column_def)

lemma length_assign_column: "length (assign_column n s) = n"
  by (simp add: assign_column_def)

lemma series_get_map_upt: "series_get (map f [0..<n]) i = (if i < n then f i else None)"
  by (simp add: series_get_def)

lemma series_get_beyond: "\<not> i < max (length a) (length b) \<Longrightarrow> series_get a i = None \<and> series_get b i = None"
  by (auto simp: series_get_def max_def split: if_splits)

lemma series_subtract_fill0_get:
  "series_get (series_subtract_fill0 a b) i =
     (if series_get a i = None \<and> series_get b i = None then None
      else Some (fill0 (series_get a i) - fill0 (series_get b i)))"
  unfolding series_subtract_fill0_def series_get_map_upt
  using series_get_beyond[of i a b] by (cases "i < max (length a) (length b)") simp_all

lemma series_sub_get:
  "series_get (series_sub a b) i =
     (case series_get a i of None \<Rightarrow> None
      | Some x \<Rightarrow> (case series_get b i of None \<Rightarrow> None | Some y \<Rightarrow> Some (x - y)))"
  unfolding series_sub_def series_get_map_upt
  using series_get_beyond[of i a b] by (cases "i < max (length a) (length b)") simp_all

lemma create_delta_files_cell:
  assumes "map_of (node_cols current) col = Some c" "map_of (node_cols baseline) col = Some b"
    and "i < length (measurement current)"
  shows "table_cell (create_delta_files current baseline) col i =
           Some (deadband (if series_get b i = None \<and> series_get c i = None then None
                           else Some (fill0 (series_get b i) - fill0 (series_get c i))))"
  unfolding table_cell_def create_delta_files_lookup[OF assms(1,2)] create_delta_files_measurement
  using assms(3) by (simp add: length_assign_column assign_column_nth series_subtract_fill0_get)

lemma map_of_replace:
  "map_of (map (\<lambda>(k, v). if k = col then (k, s) else (k, v)) xs) k
     = (if k = col \<and> col \<in> fst ` set xs then Some s else map_of xs k)"
proof (induction xs)
  case Nil
  then show ?case by simp
next
  case (Cons q xs)
  obtain a v where q: "q = (a, v)" by (cases q)
  show ?case
  proof (cases "a = col")
    case True
    then show ?thesis using q Cons.IH by (cases "k = col") simp_all
  next
    case False
    then show ?thesis using q Cons.IH by (cases "k = col") auto
  qed
qed

lemma set_column_lookup:
  assumes "col \<in> fst ` set (node_cols t)"
  shows "map_of (node_cols (set_column t col s)) k = (if k = col then Some s else map_of (node_cols t) k)"
  using assms by (simp add: set_column_def map_of_replace)

lemma set_column_names:
  assumes "col \<in> fst ` set (node_cols t)"
  shows "fst ` set (node_cols (set_column t col s)) = fst ` set (node_cols t)"
proof -
  have "map fst (map (\<lambda>(k, v). if k = col then (k, s) else (k, v)) xs) = map fst xs"
    for xs :: "(string \<times> cell list) list"
    by (induction xs) auto
  then have "fst ` set (map (\<lambda>(k, v). if k = col then (k, s) else (k, v)) xs) = fst ` set xs"
    for xs :: "(string \<times> cell list) list"
    by (metis set_map)
  then show ?thesis using assms by (simp add: set_column_def)
qed

lemma set_column_measurement: "measurement (set_column t col s) = measurement t"
  by (simp add: set_column_def)

lemma compute_delta_loop_result:
  assumes "distinct (map fst cs)" "fst ` set cs \<subseteq> fst ` set (node_cols baseline)"
    and "fst ` set (node_cols delta) = fst ` set (node_cols baseline)"
  shows "\<exists>dt. compute_delta_loop cs baseline delta = Inr dt \<and> measurement dt = measurement delta \<and>
           (\<forall>col. map_of (node_cols dt) col =
               (case map_of cs col of
                  Some c \<Rightarrow> Some (map deadband (assign_column (length (measurement delta))
                                     (series_sub (the (map_of (node_cols baseline) col)) c)))
                | None \<Rightarrow> map_of (node_cols delta) col))"
  using assms
proof (induction cs arbitrary: delta)
  case Nil
  then show ?case by simp
next
  case (Cons p cs)
  obtain col c where p: "p = (col, c)" by (cases p)
  have "col \<in> fst ` set (node_cols baseline)" using Cons.prems(2) p by auto
  then obtain b where b: "map_of (node_cols baseline) col = Some b"
    by (metis weak_map_of_SomeI image_iff prod.collapse not_Some_eq map_of_eq_None_iff)
  define s where "s = map deadband (assign_column (length (measurement delta)) (series_sub b c))"
  define delta' where "delta' = set_column delta col s"
  have indelta: "col \<in> fst ` set (node_cols delta)"
    using Cons.prems(3) \<open>col \<in> fst ` set (node_cols baseline)\<close> by simp
  have step: "compute_delta_loop (p # cs) baseline delta = compute_delta_loop cs baseline delta'"
    unfolding p delta'_def s_def using b by simp
  have d1: "distinct (map fst cs)" using Cons.prems(1) by simp
  have d2: "fst ` set cs \<subseteq> fst ` set (node_cols baseline)" using Cons.prems(2) by auto
  have d3: "fst ` set (node_cols delta') = fst ` set (node_cols baseline)"
    unfolding delta'_def using set_column_names[OF indelta] Cons.prems(3) by simp
  obtain dt where dt: "compute_delta_loop cs baseline delta' = Inr dt" "measurement dt = measurement delta'"
    "\<forall>k. map_of (node_cols dt) k =
               (case map_of cs k of
                  Some c \<Rightarrow> Some (map deadband (assign_column (length (measurement delta'))
                                     (series_sub (the (map_of (node_cols baseline) k)) c)))
                | None \<Rightarrow> map_of (node_cols delta') k)"
    using Cons.IH[OF d1 d2 d3] by blast
  have m: "measurement delta' = measurement delta" unfolding delta'_def by (rule set_column_measurement)
  have notin: "map_of cs col = None" using Cons.prems(1) p by (simp add: map_of_eq_None_iff)
  have "map_of (node_cols dt) k =
               (case map_of (p # cs) k of
                  Some c \<Rightarrow> Some (map deadband (assign_column (length (measurement delta))
                                     (series_sub (the (map_of (node_cols baseline) k)) c)))
                | None \<Rightarrow> map_of (node_cols delta) k)" for k
  proof (cases "k = col")
    case True
    have "map_of (node_cols dt) col = map_of (node_cols delta') col" using dt(3) notin by simp
    also have "\<dots> = Some s" unfolding delta'_def using set_column_lookup[OF indelta] by simp
    finally show ?thesis using True p b s_def by simp
  next
    case False
    have "map_of (node_cols delta') k = map_of (node_cols delta) k"
      unfolding delta'_def using set_column_lookup[OF indelta] False by simp
    moreover have "map_of (p # cs) k = map_of cs k" using False p by simp
    ultimately show ?thesis using dt(3)[rule_format, of k] m by (simp only:)
  qed
  then show ?case using step dt(1,2) m by simp
qed

lemma compute_delta_cell:
  assumes "distinct (map fst (node_cols current))"
    and "fst ` set (node_cols current) \<subseteq> fst ` set (node_cols baseline)"
    and "map_of (node_cols current) col = Some c" "map_of (node_cols baseline) col = Some b"
    and "i < length (measurement baseline)"
  shows "\<exists>dt. compute_delta current baseline = Inr dt \<and>
           table_cell dt col i = Some (deadband (case series_get b i of None \<Rightarrow> None
               | Some y \<Rightarrow> (case series_get c i of None \<Rightarrow> None | Some x \<Rightarrow> Some (y - x))))"
proof -
  obtain dt where dt: "compute_delta_loop (node_cols current) baseline baseline = Inr dt"
      "measurement dt = measurement baseline"
      "\<forall>k. map_of (node_cols dt) k =
               (case map_of (node_cols current) k of
                  Some c \<Rightarrow> Some (map deadband (assign_column (length (measurement baseline))
                                     (series_sub (the (map_of (node_cols baseline) k)) c)))
                | None \<Rightarrow> map_of (node_cols baseline) k)"
    using compute_delta_loop_result[OF assms(1,2), of baseline] by blast
  have "map_of (node_cols dt) col = Some (map deadband (assign_column (length (measurement baseline))
                                     (series_sub b c)))"
    using dt(3) assms(3,4) by simp
  then have "table_cell dt col i = Some (deadband (series_get (series_sub b c) i))"
    unfolding table_cell_def dt(2) using assms(5)
    by (simp add: length_assign_column assign_column_nth)
  then show ?thesis using dt(1) unfolding compute_delta_def series_sub_get by simp
qed

lemma deadband_Some: "deadband (Some v) = Some (if \<bar>v\<bar> < 1 / 10 ^ 6 then 0 else v)"
  by (simp add: deadband_def)

text \<open>
  Claim C10. In \<^verbatim>\<open>create_delta_files\<close>, for a column that both tables have: a cell missing in
  the current table only gives the baseline value, a cell missing in the baseline only gives
  minus the current value, both subject to the deadband, and a cell missing in both gives a
  missing delta cell.
\<close>

theorem delta_missing_cells:
  assumes "map_of (node_cols current) col = Some c" "map_of (node_cols baseline) col = Some b"
    and "i < length (measurement current)"
  shows "(series_get c i = None \<and> series_get b i = Some y \<longrightarrow>
            table_cell (create_delta_files current baseline) col i
              = Some (Some (if \<bar>y\<bar> < 1 / 10 ^ 6 then 0 else y)))
       \<and> (series_get c i = Some x \<and> series_get b i = None \<longrightarrow>
            table_cell (create_delta_files current baseline) col i
              = Some (Some (if \<bar>x\<bar> < 1 / 10 ^ 6 then 0 else - x)))
       \<and> (series_get c i = None \<and> series_get b i = None \<longrightarrow>
            table_cell (create_delta_files current baseline) col i = Some None)"
  unfolding create_delta_files_cell[OF assms]
  by (simp add: fill0_def deadband_def)

theorem delta_missing_cells_witness:
  "table_cell (create_delta_files delta_example_current delta_example_baseline) ''Node_1'' 3 = Some (Some 4)
   \<and> table_cell (create_delta_files delta_example_current delta_example_baseline) ''Node_2'' 2 = Some (Some 0)
   \<and> table_cell (create_delta_files delta_example_current delta_example_baseline) ''Node_2'' 1
        = Some (Some (- 3.5))
   \<and> table_cell (create_delta_files delta_example_current delta_example_baseline) ''Node_2'' 0 = Some None"
proof -
  have c1: "map_of (node_cols delta_example_current) ''Node_1'' = Some [Some 1, Some 2, Some 3, None]"
    and c2: "map_of (node_cols delta_example_current) ''Node_2'' = Some [None, Some 3.5, None, Some 0.0000002]"
    by (simp_all add: delta_example_current_def)
  have b1: "map_of (node_cols delta_example_baseline) ''Node_1''
             = Some [Some 1.0000005, Some 2.00001, Some 3, Some 4]"
    and b2: "map_of (node_cols delta_example_baseline) ''Node_2'' = Some [None, None, Some 0.0000003, None]"
    by (simp_all add: delta_example_baseline_def)
  have n: "0 < length (measurement delta_example_current)" "1 < length (measurement delta_example_current)"
    "2 < length (measurement delta_example_current)" "3 < length (measurement delta_example_current)"
    by (simp_all add: delta_example_current_def)
  show ?thesis
    using delta_missing_cells[OF c1 b1 n(4), of 4 0] delta_missing_cells[OF c2 b2 n(3), of "3 / 10 ^ 7" 0]
      delta_missing_cells[OF c2 b2 n(2), of 0 "3.5"] delta_missing_cells[OF c2 b2 n(1), of 0 0]
    by (simp add: series_get_def)
qed

text \<open>
  Claim C8. \<^verbatim>\<open>compute_delta\<close> does not compute the delta of the columns that both tables have
  when the current table has a column that the baseline lacks: \<^verbatim>\<open>baseline[col]\<close> raises
  \<^verbatim>\<open>KeyError\<close> and no table is written. On the same two tables \<^verbatim>\<open>create_delta_files\<close> gives
  baseline minus current for the shared column and leaves the other column as it is.
\<close>

theorem compute_delta_missing_column:
  "compute_delta delta_example_wide delta_example_narrow = Inl (KeyError ''Node_3'')
   \<and> table_cell (create_delta_files delta_example_wide delta_example_narrow) ''Node_1'' 0
        = Some (Some 2)
   \<and> table_cell (create_delta_files delta_example_wide delta_example_narrow) ''Node_1'' 2
        = Some (Some 0)
   \<and> table_cell (create_delta_files delta_example_wide delta_example_narrow) ''Node_3'' 0
        = Some (Some 7)"
  by (simp add: compute_delta_def delta_example_wide_def delta_example_narrow_def set_column_def
      assign_column_def series_sub_def series_get_def deadband_def create_delta_files_def
      series_subtract_fill0_def fill0_def table_cell_def)

section \<open>Properties of the channel block parsers\<close>

lemma map_of_dict_set: "map_of (dict_set d k v) = (map_of d)(k \<mapsto> v)"
  by (induction d) (auto simp: fun_eq_iff)

lemma keys_dict_set: "fst ` set (dict_set d k v) = insert k (fst ` set d)"
  by (induction d) auto

lemma dict_get_dict_set: "dict_get (dict_set d k v) k' = (if k' = k then v else dict_get d k')"
  by (simp add: dict_get_def map_of_dict_set)



lemma process_line_other:
  assumes "\<not> startswith line ''$ACCE''" "\<not> startswith line ''$DISP''"
    and "current_header st = Some h" "map_of (data_dict st) h = Some xs"
  shows "process_line st line =
           Inr (if strip line = [] then st\<lparr>current_header := None\<rparr>
                else case row_value line of
                       None \<Rightarrow> st
                     | Some v \<Rightarrow> st\<lparr>data_dict := dict_set (data_dict st) h (xs @ [v])\<rparr>)"
  using assms unfolding process_line_def row_value_def
  by (simp add: Let_def split: option.splits)

lemma pch_line_other:
  assumes "\<not> startswith line ''$ACCE''" "\<not> startswith line ''$DISP''"
    and "current_type st \<noteq> None"
  shows "pch_line st line =
           Inr (if startswith line ''$''
                then (save_block st)\<lparr>current_type := None, current_node := None,
                                      current_dof := None, current_data := []\<rparr>
                else if strip line = [] then st
                else case pch_row line of
                       None \<Rightarrow> st
                     | Some p \<Rightarrow> st\<lparr>current_data := current_data st @ [p]\<rparr>)"
  using assms unfolding pch_line_def pch_row_def
  by (simp add: Let_def split: option.splits prod.splits)




lemma split_acc_blank: "\<forall>c \<in> set s. isspace c \<Longrightarrow> split_acc [] s = []"
  by (induction s) simp_all

lemma strip_empty_blank:
  assumes "strip l = []" shows "\<forall>c \<in> set l. isspace c"
proof -
  define a where "a = dropWhile isspace l"
  have "dropWhile isspace (rev a) = []" using assms unfolding strip_def a_def by simp
  then have all: "\<forall>c \<in> set a. isspace c" by (simp add: dropWhile_eq_Nil_conv)
  have "a = []"
  proof (rule ccontr)
    assume "a \<noteq> []"
    then have "\<not> isspace (hd a)" "hd a \<in> set a"
      unfolding a_def using hd_dropWhile[of isspace l] by simp_all
    then show False using all by blast
  qed
  then show ?thesis unfolding a_def by (simp add: dropWhile_eq_Nil_conv)
qed

lemma blank_no_tokens: "strip l = [] \<Longrightarrow> str_split l = []"
  using split_acc_blank strip_empty_blank unfolding str_split_def by blast



lemma dof_mapping_nonempty: "dof_mapping n \<noteq> []"
  by (simp add: dof_mapping_def)

lemma pch_header_state:
  assumes "pch_header ty hdr st = Inr st1" "5 \<le> length (str_split hdr)"
  shows "current_type st1 = Some ty \<and> (\<exists>node dof. current_node st1 = Some node
           \<and> current_dof st1 = Some dof \<and> dof \<noteq> []) \<and> current_data st1 = []"
proof -
  obtain node where n: "py_int (str_split hdr ! 2) = Some node"
    using assms unfolding pch_header_def Let_def by (cases "py_int (str_split hdr ! 2)") simp_all
  obtain d where d: "py_int (str_split hdr ! 3) = Some d"
    using assms n unfolding pch_header_def Let_def by (cases "py_int (str_split hdr ! 3)") simp_all
  have "pch_header ty hdr st = Inr ((save_block st)\<lparr>current_type := Some ty, current_node := Some node,
                          current_dof := Some (dof_mapping d), current_data := []\<rparr>)"
    using assms(2) n d unfolding pch_header_def Let_def by simp
  then have "st1 = (save_block st)\<lparr>current_type := Some ty, current_node := Some node,
                          current_dof := Some (dof_mapping d), current_data := []\<rparr>"
    using assms(1) by simp
  then show ?thesis using dof_mapping_nonempty by simp
qed

lemma pch_header_result:
  assumes "startswith hdr ''$ACCE'' \<or> startswith hdr ''$DISP''"
    and "pch_line st hdr = Inr st1" "5 \<le> length (str_split hdr)"
  shows "\<exists>ty node dof. current_type st1 = Some ty \<and> current_node st1 = Some node
           \<and> current_dof st1 = Some dof \<and> dof \<noteq> [] \<and> current_data st1 = []"
proof (cases "startswith hdr ''$ACCE''")
  case True
  then have "pch_header Acceleration hdr st = Inr st1" using assms(2) by (simp add: pch_line_def)
  then show ?thesis using pch_header_state[OF _ assms(3)] by blast
next
  case False
  then have "pch_header Displacement hdr st = Inr st1" using assms(1,2) by (simp add: pch_line_def)
  then show ?thesis using pch_header_state[OF _ assms(3)] by blast
qed

lemma save_block_lookup:
  assumes "current_type st = Some ty" "current_node st = Some node" "node \<noteq> 0"
    and "current_dof st = Some dof" "dof \<noteq> []" "current_data st \<noteq> []"
  shows "map_of (data_of ty (save_block st)) (node, dof) = Some (current_data st)"
  using assms unfolding save_block_def data_of_def
  by (cases ty) (simp_all add: map_of_dict_set)

lemma save_block_type: "current_type (save_block st) = current_type st"
  "current_node (save_block st) = current_node st" "current_dof (save_block st) = current_dof st"
  "current_data (save_block st) = current_data st"
  unfolding save_block_def by (auto split: option.splits kind.splits)

lemma dict_set_twice: "dict_set (dict_set d k v) k v = dict_set d k v"
  by (induction d) auto

lemma save_block_idem: "save_block (save_block st) = save_block st"
proof (cases "\<exists>ty node dof. current_type st = Some ty \<and> current_node st = Some node
      \<and> current_dof st = Some dof \<and> node \<noteq> 0 \<and> dof \<noteq> [] \<and> current_data st \<noteq> []")
  case True
  then obtain ty node dof where h: "current_type st = Some ty" "current_node st = Some node"
      "current_dof st = Some dof" "node \<noteq> 0" "dof \<noteq> []" "current_data st \<noteq> []" by blast
  show ?thesis using h by (cases ty) (simp_all add: save_block_def dict_set_twice)
next
  case False
  then have "save_block st = st" unfolding save_block_def
    by (auto split: option.splits kind.splits)
  then show ?thesis by simp
qed

text \<open>
  Claim C2, amended. For a line that is not a \<^verbatim>\<open>$ACCE\<close>/\<^verbatim>\<open>$DISP\<close> header:
  \<^verbatim>\<open>process_data_blocks\<close> closes the open block exactly when the line is blank (a \<^verbatim>\<open>$\<close>-line or
  a short line leaves it open), and a sample is in its series as soon as its row is read, so
  nothing is pending at the end of the input; \<^verbatim>\<open>parse_pch_file\<close> closes the open block exactly
  when the line starts with \<^verbatim>\<open>$\<close> (a blank or short line leaves it open), and a block that is
  open at the end of the input, with a node id other than 0 and at least one sample, is
  stored under its key; storing it again changes nothing.
\<close>

theorem block_closing_rules:
  assumes "\<not> startswith line ''$ACCE''" "\<not> startswith line ''$DISP''"
  shows "(current_header st = Some h \<and> map_of (data_dict st) h = Some xs \<longrightarrow>
            (\<exists>st'. process_line st line = Inr st'
               \<and> (current_header st' = None \<longleftrightarrow> strip line = [])
               \<and> (strip line \<noteq> [] \<longrightarrow> current_header st' = Some h)
               \<and> map_of (data_dict st') h
                    = Some (xs @ (if strip line = [] then [] else List.map_filter row_value [line]))))
       \<and> (current_type db \<noteq> None \<longrightarrow>
            (\<exists>db'. pch_line db line = Inr db'
               \<and> (current_type db' = None \<longleftrightarrow> startswith line ''$'')
               \<and> (\<not> startswith line ''$'' \<longrightarrow>
                     current_data db' = current_data db @ List.map_filter pch_row [line])))
       \<and> (pch_lines lines initial_dbstate = Inr db \<and> current_type db = Some ty
            \<and> current_node db = Some node \<and> node \<noteq> 0 \<and> current_dof db = Some dof \<and> dof \<noteq> []
            \<and> current_data db \<noteq> [] \<longrightarrow>
            (\<exists>r. parse_pch_file lines = Inr r
               \<and> map_of (data_of ty r) (node, dof) = Some (current_data db)
               \<and> save_block r = r))"
proof (intro conjI impI)
  assume a: "current_header st = Some h \<and> map_of (data_dict st) h = Some xs"
  note step = process_line_other[OF assms, of st h xs]
  show "\<exists>st'. process_line st line = Inr st'
               \<and> (current_header st' = None \<longleftrightarrow> strip line = [])
               \<and> (strip line \<noteq> [] \<longrightarrow> current_header st' = Some h)
               \<and> map_of (data_dict st') h
                    = Some (xs @ (if strip line = [] then [] else List.map_filter row_value [line]))"
  proof (cases "strip line = []")
    case True
    then show ?thesis using step a by simp
  next
    case False
    then show ?thesis using step a
      by (cases "row_value line") (simp_all add: List.map_filter_simps map_of_dict_set)
  qed
next
  assume a: "current_type db \<noteq> None"
  note step = pch_line_other[OF assms a]
  show "\<exists>db'. pch_line db line = Inr db'
               \<and> (current_type db' = None \<longleftrightarrow> startswith line ''$'')
               \<and> (\<not> startswith line ''$'' \<longrightarrow>
                     current_data db' = current_data db @ List.map_filter pch_row [line])"
  proof (cases "startswith line ''$''")
    case True
    then show ?thesis using step by simp
  next
    case False
    have blank: "strip line = [] \<Longrightarrow> pch_row line = None"
      using blank_no_tokens by (simp add: pch_row_def)
    show ?thesis
    proof (cases "strip line = []")
      case True
      then show ?thesis using step False a blank by (simp add: List.map_filter_simps)
    next
      case nb: False
      then show ?thesis using step False a
        by (cases "pch_row line") (simp_all add: List.map_filter_simps)
    qed
  qed
next
  assume a: "pch_lines lines initial_dbstate = Inr db \<and> current_type db = Some ty
            \<and> current_node db = Some node \<and> node \<noteq> 0 \<and> current_dof db = Some dof \<and> dof \<noteq> []
            \<and> current_data db \<noteq> []"
  then have "parse_pch_file lines = Inr (save_block db)" by (simp add: parse_pch_file_def)
  moreover have "map_of (data_of ty (save_block db)) (node, dof) = Some (current_data db)"
    using a save_block_lookup by blast
  ultimately show "\<exists>r. parse_pch_file lines = Inr r
               \<and> map_of (data_of ty r) (node, dof) = Some (current_data db)
               \<and> save_block r = r"
    using save_block_idem by blast
qed


lemma data_of_update [simp]:
  "data_of ty (st\<lparr>current_type := a\<rparr>) = data_of ty st"
  "data_of ty (st\<lparr>current_node := b\<rparr>) = data_of ty st"
  "data_of ty (st\<lparr>current_dof := c\<rparr>) = data_of ty st"
  "data_of ty (st\<lparr>current_data := d\<rparr>) = data_of ty st"
  by (simp_all add: data_of_def split: kind.splits)





lemmas parser_eval = string_eval determine_translation_id_def header_line_def process_line_def
  dict_get_def initial_pstate_def save_block_def dof_mapping_def pch_header_def pch_line_def
  initial_dbstate_def parse_pch_file_def row_value_def pch_row_def data_of_def
  extract_line_def extract_frequency_def Let_def py_in_def float_eq_def

theorem block_closing_counterexample:
  "process_data_blocks [''$ACCE 0 222 3 0'', ''$TITLE = RUN 1'', ''1 1.0 0.5 1''] initial_pstate
     = Inr \<lparr>data_dict = [(''ACCE-222-T1'', [Finite 0.5])], node_ids = [''222''],
            current_header = Some ''ACCE-222-T1''\<rparr>
   \<and> parse_pch_file [''$ACCE 0 222 3 0'', '''', ''1 1.0 0.5 1'']
     = Inr \<lparr>acceleration = [((222, ''T1''), [(Finite 1, Finite 0.5)])], displacement = [],
            current_type = Some Acceleration, current_node = Some 222,
            current_dof = Some ''T1'', current_data = [(Finite 1, Finite 0.5)]\<rparr>"
  by (simp add: parser_eval)


theorem block_closing_rules_witness:
  "\<not> startswith ''2 2.0 1.5 2'' ''$ACCE'' \<and> \<not> startswith ''2 2.0 1.5 2'' ''$DISP''
   \<and> (\<exists>st'. process_line example_pstate ''2 2.0 1.5 2'' = Inr st'
          \<and> current_header st' = Some ''ACCE-222-T1''
          \<and> map_of (data_dict st') ''ACCE-222-T1'' = Some [Finite 0.5, Finite 1.5])
   \<and> (\<exists>db'. pch_line example_dbstate ''2 2.0 1.5 2'' = Inr db'
          \<and> current_type db' \<noteq> None
          \<and> current_data db' = [(Finite 1, Finite 0.5), (Finite 2, Finite 1.5)])
   \<and> (\<exists>r. parse_pch_file [''$ACCE 0 222 3 0'', ''1 1.0 0.5 1''] = Inr r
          \<and> map_of (data_of Acceleration r) (222, ''T1'') = Some [(Finite 1, Finite 0.5)]
          \<and> save_block r = r)"
proof -
  have a: "\<not> startswith ''2 2.0 1.5 2'' ''$ACCE''" "\<not> startswith ''2 2.0 1.5 2'' ''$DISP''"
    by (simp_all add: startswith_def)
  have p: "current_header example_pstate = Some ''ACCE-222-T1''"
    "map_of (data_dict example_pstate) ''ACCE-222-T1'' = Some [Finite 0.5]"
    by (simp_all add: example_pstate_def)
  have d: "pch_lines [''$ACCE 0 222 3 0'', ''1 1.0 0.5 1''] initial_dbstate = Inr example_dbstate"
    by (simp add: parser_eval example_dbstate_def)
  have e: "current_type example_dbstate = Some Acceleration" "current_node example_dbstate = Some 222"
    "current_dof example_dbstate = Some ''T1''" "current_data example_dbstate = [(Finite 1, Finite 0.5)]"
    by (simp_all add: example_dbstate_def)
  have v: "strip ''2 2.0 1.5 2'' \<noteq> []" "\<not> startswith ''2 2.0 1.5 2'' ''$''"
    "List.map_filter row_value [''2 2.0 1.5 2''] = [Finite 1.5]"
    "List.map_filter pch_row [''2 2.0 1.5 2''] = [(Finite 2, Finite 1.5)]"
    by (simp_all add: List.map_filter_simps parser_eval)
  show ?thesis
    using block_closing_rules[OF a, of example_pstate "''ACCE-222-T1''" "[Finite 0.5]" example_dbstate
        "[''$ACCE 0 222 3 0'', ''1 1.0 0.5 1'']" Acceleration 222 "''T1''"]
      a p d e v by simp blast
qed


section \<open>Properties of the frequency axis\<close>

text \<open>The sorts.\<close>

lemma insort_key_map: "insort_key g (f x) (map f ys) = map f (insort_key (\<lambda>y. g (f y)) x ys)"
  by (induction ys) simp_all

lemma sort_key_map: "sort_key g (map f ys) = map f (sort_key (\<lambda>y. g (f y)) ys)"
  by (induction ys) (simp_all add: insort_key_map)

lemma insort_key_cong:
  "f x = g x \<Longrightarrow> (\<And>y. y \<in> set ys \<Longrightarrow> f y = g y) \<Longrightarrow> insort_key f x ys = insort_key g x ys"
  by (induction ys) simp_all

lemma sort_key_cong: "(\<And>y. y \<in> set ys \<Longrightarrow> f y = g y) \<Longrightarrow> sort_key f ys = sort_key g ys"
proof (induction ys)
  case Nil
  then show ?case by simp
next
  case (Cons y ys)
  have "sort_key f ys = sort_key g ys" using Cons by simp
  moreover have "insort_key f y (sort_key g ys) = insort_key g y (sort_key g ys)"
    using Cons.prems by (intro insort_key_cong) simp_all
  ultimately show ?case by simp
qed

lemma stable_sorter_valid: "valid_sorter stable_sorter"
  by (simp add: valid_sorter_def stable_sorter_def)

lemma py_sorted_perm:
  assumes "valid_sorter srt"
  shows "length (py_sorted srt key xs) = length xs" "set (py_sorted srt key xs) = set xs"
proof -
  have v: "length (srt (map key xs)) = length xs" "set (srt (map key xs)) = {0..<length xs}"
    using assms unfolding valid_sorter_def by (metis length_map)+
  show "length (py_sorted srt key xs) = length xs" unfolding py_sorted_def using v(1) by simp
  have "set (py_sorted srt key xs) = (\<lambda>i. xs ! i) ` {0..<length xs}"
    unfolding py_sorted_def using v(2) by simp
  also have "\<dots> = set xs" by (auto simp: set_conv_nth)
  finally show "set (py_sorted srt key xs) = set xs" .
qed

lemma py_sorted_sort_key:
  assumes "valid_sorter srt" "NaN \<notin> key ` set xs"
  shows "py_sorted srt key xs = sort_key (\<lambda>x. float_key (key x)) xs"
proof -
  have "NaN \<notin> set (map key xs)" using assms(2) by simp
  then have "srt (map key xs) = stable_sorter (map key xs)"
    using assms(1) unfolding valid_sorter_def by blast
  then have "py_sorted srt key xs
      = map (\<lambda>i. xs ! i) (sort_key (\<lambda>i. float_key (map key xs ! i)) [0..<length xs])"
    unfolding py_sorted_def stable_sorter_def by simp
  also have "sort_key (\<lambda>i. float_key (map key xs ! i)) [0..<length xs]
      = sort_key (\<lambda>i. float_key (key (xs ! i))) [0..<length xs]"
    by (rule sort_key_cong) simp
  also have "map (\<lambda>i. xs ! i) (sort_key (\<lambda>i. float_key (key (xs ! i))) [0..<length xs])
      = sort_key (\<lambda>x. float_key (key x)) (map (\<lambda>i. xs ! i) [0..<length xs])"
    by (simp add: sort_key_map)
  also have "map (\<lambda>i. xs ! i) [0..<length xs] = xs" by (rule map_nth)
  finally show ?thesis .
qed

lemma float_key_inj: "float_key a = float_key b \<Longrightarrow> a = b"
  by (cases a; cases b) simp_all

lemma sorted_wrt_float_lt:
  "NaN \<notin> set ys \<Longrightarrow> sorted_wrt (\<lambda>a b. float_key a < float_key b) ys \<Longrightarrow> sorted_wrt float_lt ys"
  by (induction ys) (auto simp: float_lt_def)

lemma strictly_sorted_floats:
  assumes "NaN \<notin> set xs" "distinct xs"
  shows "sorted_wrt float_lt (sort_key float_key xs)"
proof -
  let ?ys = "sort_key float_key xs"
  have "inj_on float_key (set ?ys)" using float_key_inj by (auto simp: inj_on_def)
  then have "distinct (map float_key ?ys)" using assms(2) by (simp add: distinct_map)
  moreover have "sorted (map float_key ?ys)" by (rule sorted_sort_key)
  ultimately have "sorted_wrt (<) (map float_key ?ys)" by (simp add: strict_sorted_iff)
  then have "sorted_wrt (\<lambda>a b. float_key a < float_key b) ?ys" by (simp add: sorted_wrt_map)
  moreover have "NaN \<notin> set ?ys" using assms(1) by simp
  ultimately show ?thesis by (intro sorted_wrt_float_lt)
qed

text \<open>The list of frequencies that \<^verbatim>\<open>extract_frequency\<close> builds.\<close>

lemma py_in_set: "py_in x xs \<longleftrightarrow> x \<noteq> NaN \<and> x \<in> set xs"
  by (auto simp: py_in_def float_eq_def)

lemma set_foldl_add_new: "set (foldl add_new fs xs) = set fs \<union> set xs"
  by (induction xs arbitrary: fs) (auto simp: add_new_def py_in_set)

lemma distinct_foldl_add_new: "distinct fs \<Longrightarrow> NaN \<notin> set xs \<Longrightarrow> distinct (foldl add_new fs xs)"
  by (induction xs arbitrary: fs) (auto simp: add_new_def py_in_set)

lemma extract_line_step:
  assumes "''Frequency'' \<in> fst ` set d"
  shows "\<exists>w' d'. extract_line (w, d) line = (w', d') \<and> ''Frequency'' \<in> fst ` set d'
           \<and> (\<forall>ls. foldl add_new (dict_get d' ''Frequency'') (frequency_rows w' ls)
                  = foldl add_new (dict_get d ''Frequency'') (frequency_rows w (line # ls)))"
proof -
  have same: "\<exists>w' d'. extract_line (w, d) line = (w', d') \<and> ''Frequency'' \<in> fst ` set d'
           \<and> (\<forall>ls. foldl add_new (dict_get d' ''Frequency'') (frequency_rows w' ls)
                  = foldl add_new (dict_get d ''Frequency'') (frequency_rows w (line # ls)))"
    if "extract_line (w, d) line = (w1, d)"
      and "\<forall>ls. frequency_rows w (line # ls) = frequency_rows w1 ls" for w1
    using that assms by simp
  show ?thesis
  proof (cases "startswith line ''$ACCE'' \<or> startswith line ''$DISP''")
    case True
    then show ?thesis by (intro same[of True]) (simp_all add: extract_line_def)
  next
    case hdr: False
    show ?thesis
    proof (cases w)
      case False
      then show ?thesis using hdr by (intro same[of False]) (simp_all add: extract_line_def)
    next
      case True
      show ?thesis
      proof (cases "strip line = []")
        case True
        then show ?thesis using hdr \<open>w\<close> by (intro same[of False]) (simp_all add: extract_line_def)
      next
        case nb: False
        show ?thesis
        proof (cases "4 \<le> length (str_split line)")
          case False
          then show ?thesis using hdr \<open>w\<close> nb by (intro same[of True]) (simp_all add: extract_line_def)
        next
          case four: True
          show ?thesis
          proof (cases "py_float (str_split line ! 1)")
            case None
            then show ?thesis using hdr \<open>w\<close> nb four
              by (intro same[of True]) (simp_all add: extract_line_def)
          next
            case (Some f)
            have rows: "frequency_rows w (line # ls) = f # frequency_rows True ls" for ls
              using hdr \<open>w\<close> nb four Some by simp
            show ?thesis
            proof (cases "py_in f (dict_get d ''Frequency'')")
              case True
              then have "extract_line (w, d) line = (True, d)"
                using hdr \<open>w\<close> nb four Some by (simp add: extract_line_def)
              moreover have "add_new (dict_get d ''Frequency'') f = dict_get d ''Frequency''"
                using True by (simp add: add_new_def)
              ultimately show ?thesis using assms rows by (auto simp del: frequency_rows.simps)
            next
              case False
              define d' where "d' = dict_set d ''Frequency'' (dict_get d ''Frequency'' @ [f])"
              have "extract_line (w, d) line = (True, d')"
                using hdr \<open>w\<close> nb four Some False by (simp add: extract_line_def d'_def)
              moreover have "add_new (dict_get d ''Frequency'') f = dict_get d' ''Frequency''"
                using False by (simp add: add_new_def d'_def dict_get_dict_set)
              moreover have "''Frequency'' \<in> fst ` set d'" by (simp add: d'_def keys_dict_set)
              ultimately show ?thesis using rows by (auto simp del: frequency_rows.simps)
            qed
          qed
        qed
      qed
    qed
  qed
qed

lemma extract_fold:
  assumes "''Frequency'' \<in> fst ` set d"
  shows "dict_get (snd (foldl extract_line (w, d) lines)) ''Frequency''
           = foldl add_new (dict_get d ''Frequency'') (frequency_rows w lines)"
  using assms
proof (induction lines arbitrary: w d)
  case Nil
  then show ?case by simp
next
  case (Cons line lines)
  obtain w' d' where s: "extract_line (w, d) line = (w', d')" "''Frequency'' \<in> fst ` set d'"
    "\<forall>ls. foldl add_new (dict_get d' ''Frequency'') (frequency_rows w' ls)
                  = foldl add_new (dict_get d ''Frequency'') (frequency_rows w (line # ls))"
    using extract_line_step[OF Cons.prems] by blast
  have "dict_get (snd (foldl extract_line (w', d') lines)) ''Frequency''
           = foldl add_new (dict_get d' ''Frequency'') (frequency_rows w' lines)"
    using Cons.IH[OF s(2)] .
  then show ?case using s(1,3) by simp
qed

lemma extract_frequency_rows:
  assumes "''Frequency'' \<notin> fst ` set d"
  shows "dict_get (extract_frequency lines d) ''Frequency'' = foldl add_new [] (frequency_rows False lines)"
proof -
  define d0 where "d0 = dict_set d ''Frequency'' ([] :: pyfloat list)"
  have k: "''Frequency'' \<in> fst ` set d0" by (simp add: d0_def keys_dict_set)
  have "dict_get d0 ''Frequency'' = []" by (simp add: d0_def dict_get_dict_set)
  then show ?thesis using extract_fold[OF k, of False lines] assms
    unfolding extract_frequency_def d0_def by simp
qed

lemma header_line_keys:
  assumes "channel_keys st" "header_line p line st = Inr st'" "p = ''ACCE'' \<or> p = ''DISP''"
  shows "channel_keys st'"
proof (cases "5 \<le> length (str_split line)")
  case False
  then show ?thesis using assms by (simp add: header_line_def)
next
  case True
  obtain t where t: "py_int (str_split line ! 3) = Some t"
    using assms(2) True unfolding header_line_def by (cases "py_int (str_split line ! 3)") (simp_all add: Let_def)
  define h where "h = p @ ''-'' @ str_split line ! 2 @ ''-'' @ determine_translation_id t"
  have "header_line p line st =
          Inr (st\<lparr>data_dict := (if h \<in> fst ` set (data_dict st) then data_dict st
                                       else dict_set (data_dict st) h []),
                         node_ids := List.insert (str_split line ! 2) (node_ids st),
                         current_header := Some h\<rparr>)"
    using True t unfolding header_line_def h_def Let_def by simp
  then have st': "st' = st\<lparr>data_dict := (if h \<in> fst ` set (data_dict st) then data_dict st
                                       else dict_set (data_dict st) h []),
                         node_ids := List.insert (str_split line ! 2) (node_ids st),
                         current_header := Some h\<rparr>"
    using assms(2) by simp
  have hk: "startswith h ''ACCE-'' \<or> startswith h ''DISP-''"
    using assms(3) unfolding h_def startswith_def by auto
  have "fst ` set (data_dict st') \<subseteq> insert h (fst ` set (data_dict st))"
    unfolding st' by (simp add: keys_dict_set subset_insertI)
  then show ?thesis using assms(1) hk unfolding channel_keys_def by blast
qed

lemma process_line_keys:
  assumes "channel_keys st" "process_line st line = Inr st'"
  shows "channel_keys st'"
proof (cases "startswith line ''$ACCE''")
  case True
  then show ?thesis using assms header_line_keys by (simp add: process_line_def)
next
  case a: False
  show ?thesis
  proof (cases "startswith line ''$DISP''")
    case True
    then show ?thesis using assms a header_line_keys by (simp add: process_line_def)
  next
    case False
    have known: "map_of d k = Some v \<Longrightarrow> insert k (fst ` set d) = fst ` set d"
      for d :: "(string \<times> pyfloat list) list" and k v
      by (metis insert_absorb map_of_SomeD image_eqI fst_conv)
    have "data_dict st' = data_dict st
          \<or> (\<exists>y xs v. map_of (data_dict st) y = Some xs
                \<and> data_dict st' = dict_set (data_dict st) y (xs @ [v]))"
      using assms(2) a False unfolding process_line_def Let_def
      by (auto split: if_splits option.splits) blast
    then have "fst ` set (data_dict st') = fst ` set (data_dict st)"
    proof (elim disjE exE conjE)
      assume "data_dict st' = data_dict st"
      then show ?thesis by simp
    next
      fix y xs v
      assume "map_of (data_dict st) y = Some xs" "data_dict st' = dict_set (data_dict st) y (xs @ [v])"
      then show ?thesis
        using keys_dict_set[of "data_dict st" y "xs @ [v]"] known[of "data_dict st" y xs] by simp
    qed
    then show ?thesis using assms(1) unfolding channel_keys_def by simp
  qed
qed

lemma process_data_blocks_keys:
  assumes "channel_keys st" "process_data_blocks lines st = Inr st'"
  shows "channel_keys st'"
  using assms
proof (induction lines arbitrary: st)
  case Nil
  then show ?case by simp
next
  case (Cons line lines)
  then obtain st1 where "process_line st line = Inr st1" "process_data_blocks lines st1 = Inr st'"
    by (cases "process_line st line") simp_all
  then show ?case using Cons.IH process_line_keys Cons.prems(1) by blast
qed

lemma no_frequency_key:
  assumes "process_data_blocks lines initial_pstate = Inr st"
  shows "''Frequency'' \<notin> fst ` set (data_dict st)"
proof -
  have "channel_keys initial_pstate" by (simp add: channel_keys_def initial_pstate_def)
  then have "channel_keys st" using process_data_blocks_keys assms by blast
  moreover have "\<not> (startswith ''Frequency'' ''ACCE-'' \<or> startswith ''Frequency'' ''DISP-'')"
    by (simp add: startswith_def)
  ultimately show ?thesis unfolding channel_keys_def by blast
qed

lemma frequency_rows_tokens:
  "set (frequency_rows b lines)
     \<subseteq> {f. \<exists>l \<in> set lines. 4 \<le> length (str_split l) \<and> py_float (str_split l ! 1) = Some f}"
  by (induction b lines rule: frequency_rows.induct) (auto split: option.splits if_splits)

lemma sort_key_distinct_unique:
  assumes "set xs = set ys" "distinct xs" "distinct ys"
  shows "sort_key float_key xs = sort_key float_key ys"
proof -
  have i: "inj_on float_key (set xs \<union> set ys)" using float_key_inj by (auto simp: inj_on_def)
  have s: "sorted (map float_key (sort_key float_key xs))" "sorted (map float_key (sort_key float_key ys))"
    by (rule sorted_sort_key)+
  have d: "distinct (map float_key (sort_key float_key xs))"
    "distinct (map float_key (sort_key float_key ys))"
    using assms(2,3) float_key_inj by (auto simp: distinct_map inj_on_def)
  have e: "set (map float_key (sort_key float_key xs)) = set (map float_key (sort_key float_key ys))"
    using assms(1) by simp
  have "map float_key (sort_key float_key xs) = map float_key (sort_key float_key ys)"
    by (rule sorted_distinct_set_unique[OF s(1) d(1) s(2) d(2) e])
  then show ?thesis using float_key_inj by (metis (no_types) inj_onI inj_map_eq_map)
qed

lemma frequency_axis_general:
  assumes "valid_sorter srt" "''Frequency'' \<notin> fst ` set d"
  shows "set (frequency_axis srt lines d) = set (frequency_rows False lines)"
    and "NaN \<notin> set (frequency_rows False lines) \<Longrightarrow>
           frequency_axis srt lines d = sort_key float_key (remdups (frequency_rows False lines))
           \<and> sorted_wrt float_lt (frequency_axis srt lines d) \<and> distinct (frequency_axis srt lines d)"
proof -
  define fs where "fs = foldl add_new [] (frequency_rows False lines)"
  have ax: "frequency_axis srt lines d = py_sorted srt (\<lambda>x. x) fs"
    unfolding frequency_axis_def fs_def using extract_frequency_rows[OF assms(2)] by simp
  have s: "set fs = set (frequency_rows False lines)" unfolding fs_def by (simp add: set_foldl_add_new)
  show "set (frequency_axis srt lines d) = set (frequency_rows False lines)"
    unfolding ax py_sorted_perm(2)[OF assms(1)] by (rule s)
  assume n: "NaN \<notin> set (frequency_rows False lines)"
  have d: "distinct fs" unfolding fs_def using n by (simp add: distinct_foldl_add_new)
  have "NaN \<notin> (\<lambda>x. x) ` set fs" using n s by simp
  then have sk: "frequency_axis srt lines d = sort_key float_key fs"
    unfolding ax by (rule py_sorted_sort_key[OF assms(1)])
  have u: "sort_key float_key fs = sort_key float_key (remdups (frequency_rows False lines))"
    by (rule sort_key_distinct_unique) (use s d in simp_all)
  have "NaN \<notin> set fs" using n s by simp
  then have "sorted_wrt float_lt (sort_key float_key fs)" using d by (rule strictly_sorted_floats)
  moreover have "distinct (sort_key float_key fs)" using d by simp
  ultimately show "frequency_axis srt lines d = sort_key float_key (remdups (frequency_rows False lines))
           \<and> sorted_wrt float_lt (frequency_axis srt lines d) \<and> distinct (frequency_axis srt lines d)"
    unfolding sk using u by simp
qed

text \<open>
  Claim C7, amended. The frequency axis that \<^verbatim>\<open>create_combined_data\<close> builds
  (\<^verbatim>\<open>extract_frequency\<close>, then \<^verbatim>\<open>sorted\<close>) holds exactly the frequencies of the data rows, which
  are second tokens of lines of at least four tokens. When none of them is NaN, the axis is the
  ascending sorted list of these values without duplicates (equality of the parsed values), and
  it is strictly increasing. This holds after every run of \<^verbatim>\<open>process_data_blocks\<close> that returns,
  and two channels reporting 1, 2, 2, 3 and 2, 3, 4 give the axis 1, 2, 3, 4.
\<close>

theorem frequency_axis_strictly_increasing:
  assumes "valid_sorter srt"
  shows "(process_data_blocks lines initial_pstate = Inr st \<longrightarrow>
            set (frequency_axis srt lines (data_dict st)) = set (frequency_rows False lines)
          \<and> set (frequency_rows False lines)
              \<subseteq> {f. \<exists>l \<in> set lines. 4 \<le> length (str_split l) \<and> py_float (str_split l ! 1) = Some f}
          \<and> (NaN \<notin> set (frequency_rows False lines) \<longrightarrow>
                frequency_axis srt lines (data_dict st)
                  = sort_key float_key (remdups (frequency_rows False lines))
              \<and> sorted_wrt float_lt (frequency_axis srt lines (data_dict st))
              \<and> distinct (frequency_axis srt lines (data_dict st))))
       \<and> process_data_blocks axis_example_lines initial_pstate
           = Inr \<lparr>data_dict = [(''ACCE-1-T1'', [Finite 9, Finite 9, Finite 9, Finite 9]),
                                (''DISP-1-T1'', [Finite 7, Finite 7, Finite 7])],
                  node_ids = [''1''], current_header = Some ''DISP-1-T1''\<rparr>
       \<and> frequency_axis srt axis_example_lines
             [(''ACCE-1-T1'', [Finite 9, Finite 9, Finite 9, Finite 9]),
              (''DISP-1-T1'', [Finite 7, Finite 7, Finite 7])]
           = [Finite 1, Finite 2, Finite 3, Finite 4]"
proof (intro conjI impI)
  assume a: "process_data_blocks lines initial_pstate = Inr st"
  note k = no_frequency_key[OF a]
  show "set (frequency_axis srt lines (data_dict st)) = set (frequency_rows False lines)"
    by (rule frequency_axis_general(1)[OF assms k])
  show "set (frequency_rows False lines)
              \<subseteq> {f. \<exists>l \<in> set lines. 4 \<le> length (str_split l) \<and> py_float (str_split l ! 1) = Some f}"
    by (rule frequency_rows_tokens)
  assume n: "NaN \<notin> set (frequency_rows False lines)"
  show "frequency_axis srt lines (data_dict st)
                  = sort_key float_key (remdups (frequency_rows False lines))"
    "sorted_wrt float_lt (frequency_axis srt lines (data_dict st))"
    "distinct (frequency_axis srt lines (data_dict st))"
    using frequency_axis_general(2)[OF assms k n] by blast+
next
  show "process_data_blocks axis_example_lines initial_pstate
           = Inr \<lparr>data_dict = [(''ACCE-1-T1'', [Finite 9, Finite 9, Finite 9, Finite 9]),
                                (''DISP-1-T1'', [Finite 7, Finite 7, Finite 7])],
                  node_ids = [''1''], current_header = Some ''DISP-1-T1''\<rparr>"
    by (simp add: axis_example_lines_def parser_eval)
next
  have e: "dict_get (extract_frequency axis_example_lines
             [(''ACCE-1-T1'', [Finite 9, Finite 9, Finite 9, Finite 9]),
              (''DISP-1-T1'', [Finite 7, Finite 7, Finite 7])]) ''Frequency''
        = [Finite 1, Finite 2, Finite 3, Finite 4]"
    by (simp add: axis_example_lines_def parser_eval)
  have "NaN \<notin> (\<lambda>x. x) ` set [Finite 1, Finite 2, Finite 3, Finite 4]" by simp
  then have "py_sorted srt (\<lambda>x. x) [Finite 1, Finite 2, Finite 3, Finite 4]
      = sort_key float_key [Finite 1, Finite 2, Finite 3, Finite 4]"
    by (rule py_sorted_sort_key[OF assms])
  also have "\<dots> = [Finite 1, Finite 2, Finite 3, Finite 4]" by simp
  finally show "frequency_axis srt axis_example_lines
             [(''ACCE-1-T1'', [Finite 9, Finite 9, Finite 9, Finite 9]),
              (''DISP-1-T1'', [Finite 7, Finite 7, Finite 7])]
           = [Finite 1, Finite 2, Finite 3, Finite 4]"
    unfolding frequency_axis_def e .
qed

theorem frequency_axis_counterexample:
  "process_data_blocks axis_nan_lines initial_pstate
     = Inr \<lparr>data_dict = [(''ACCE-1-T1'', [Finite 9, Finite 9])], node_ids = [''1''],
            current_header = Some ''ACCE-1-T1''\<rparr>
   \<and> dict_get (extract_frequency axis_nan_lines [(''ACCE-1-T1'', [Finite 9, Finite 9])]) ''Frequency''
       = [NaN, NaN]
   \<and> frequency_axis stable_sorter axis_nan_lines [(''ACCE-1-T1'', [Finite 9, Finite 9])] = [NaN, NaN]
   \<and> \<not> sorted_wrt float_lt [NaN, NaN] \<and> \<not> distinct [NaN, NaN]"
  by (simp add: axis_nan_lines_def parser_eval frequency_axis_def py_sorted_def stable_sorter_def
      float_lt_def)

theorem frequency_axis_strictly_increasing_witness:
  "valid_sorter stable_sorter
   \<and> process_data_blocks axis_example_lines initial_pstate
     = Inr \<lparr>data_dict = [(''ACCE-1-T1'', [Finite 9, Finite 9, Finite 9, Finite 9]),
                          (''DISP-1-T1'', [Finite 7, Finite 7, Finite 7])],
            node_ids = [''1''], current_header = Some ''DISP-1-T1''\<rparr>
   \<and> NaN \<notin> set (frequency_rows False axis_example_lines)
   \<and> frequency_axis stable_sorter axis_example_lines
        [(''ACCE-1-T1'', [Finite 9, Finite 9, Finite 9, Finite 9]),
         (''DISP-1-T1'', [Finite 7, Finite 7, Finite 7])]
       = [Finite 1, Finite 2, Finite 3, Finite 4]
   \<and> sorted_wrt float_lt (frequency_axis stable_sorter axis_example_lines
        [(''ACCE-1-T1'', [Finite 9, Finite 9, Finite 9, Finite 9]),
         (''DISP-1-T1'', [Finite 7, Finite 7, Finite 7])])
   \<and> set (frequency_axis stable_sorter axis_example_lines
        [(''ACCE-1-T1'', [Finite 9, Finite 9, Finite 9, Finite 9]),
         (''DISP-1-T1'', [Finite 7, Finite 7, Finite 7])])
       = set (frequency_rows False axis_example_lines)"
proof -
  have n: "NaN \<notin> set (frequency_rows False axis_example_lines)"
    by (simp add: axis_example_lines_def string_eval)
  note t = frequency_axis_strictly_increasing[OF stable_sorter_valid, of axis_example_lines
        "\<lparr>data_dict = [(''ACCE-1-T1'', [Finite 9, Finite 9, Finite 9, Finite 9]),
                          (''DISP-1-T1'', [Finite 7, Finite 7, Finite 7])],
            node_ids = [''1''], current_header = Some ''DISP-1-T1''\<rparr>"]
  have p: "process_data_blocks axis_example_lines initial_pstate
     = Inr \<lparr>data_dict = [(''ACCE-1-T1'', [Finite 9, Finite 9, Finite 9, Finite 9]),
                          (''DISP-1-T1'', [Finite 7, Finite 7, Finite 7])],
            node_ids = [''1''], current_header = Some ''DISP-1-T1''\<rparr>"
    by (simp add: axis_example_lines_def parser_eval)
  have d: "data_dict \<lparr>data_dict = [(''ACCE-1-T1'', [Finite 9, Finite 9, Finite 9, Finite 9]),
                          (''DISP-1-T1'', [Finite 7, Finite 7, Finite 7])],
            node_ids = [''1''], current_header = Some ''DISP-1-T1''\<rparr>
      = [(''ACCE-1-T1'', [Finite 9, Finite 9, Finite 9, Finite 9]),
         (''DISP-1-T1'', [Finite 7, Finite 7, Finite 7])]"
    by simp
  show ?thesis using t[unfolded d] p n stable_sorter_valid by blast
qed

end
